theory Spec2Isabelle
  imports Main
begin

section \<open>The Sus Scanner API handler (main.py)\<close>

text \<open>
  The module is an HTTP handler around an analysis module that it imports by name at the
  first request. The embedding keeps the source's functions (\<open>_import_first\<close>,
  \<open>_load_scanner_once\<close>, \<open>_to_json\<close>, \<open>scan\<close>) and the module-level
  \<open>allow_origins\<close>. Whatever the source only receives from outside (the import system,
  the loaded module, the objects the analysis returns) is a parameter, described by what the
  source observes of it. The module globals are a record that every function takes and
  returns; a raised exception is the left summand of the result.

  A Python \<open>str\<close> is a \<open>string\<close> whose characters are read as code points below 256.
  Exceptions are those that \<open>except Exception\<close> catches. A test or call that the source
  makes on an outside object is an outcome: the exception it raises or the value it gives.
\<close>

subsection \<open>Exceptions\<close>

text \<open>
  \<open>Exception truth msg\<close> is any exception other than an \<open>HTTPException\<close>, given by
  \<^item> \<open>truth\<close>: the outcome of the truth test \<open>if e:\<close>. It is \<open>Inr True\<close> unless the class
    of the exception defines \<open>__bool__\<close> or \<open>__len__\<close>; then the test may give false or
    raise;
  \<^item> \<open>msg\<close>: the text \<open>str(e)\<close> that the handler formats into its messages.
  \<open>HTTPException status_code detail\<close> is the exception FastAPI turns into the response with
  that status and that detail; it is truthy.
\<close>

datatype exn = Exception "exn + bool" string | HTTPException nat string

fun exn_truth :: "exn \<Rightarrow> exn + bool" where
  "exn_truth (Exception truth msg) = truth"
| "exn_truth (HTTPException status_code detail) = Inr True"

definition digit_char :: "nat \<Rightarrow> char" where
  "digit_char d = ''0123456789'' ! d"

function str_nat :: "nat \<Rightarrow> string" where
  "str_nat n = (if n < 10 then [digit_char n] else str_nat (n div 10) @ [digit_char (n mod 10)])"
  by pat_completeness auto
termination
  by (relation "measure (\<lambda>n. n)") auto

declare str_nat.simps [simp del]

text \<open>
  \<open>str(e)\<close>, as an f-string formats \<open>{e}\<close>. For an \<open>HTTPException\<close> it is Starlette's
  \<open>__str__\<close>, which returns \<open>f"{self.status_code}: {self.detail}"\<close>.
\<close>

fun str_exn :: "exn \<Rightarrow> string" where
  "str_exn (Exception truth msg) = msg"
| "str_exn (HTTPException status_code detail) = str_nat status_code @ '': '' @ detail"

subsection \<open>String methods\<close>

text \<open>
  \<open>str.isspace\<close> on the code points below 256: the control characters 9 to 13 and 28 to
  31, the space, NEL (133) and the no-break space (160). \<open>str.strip()\<close> removes these at
  both ends.
\<close>

definition isspace :: "char \<Rightarrow> bool" where
  "isspace c = (let n = (of_char c :: nat) in
      (9 \<le> n \<and> n \<le> 13) \<or> (28 \<le> n \<and> n \<le> 32) \<or> n = 133 \<or> n = 160)"

definition lstrip :: "string \<Rightarrow> string" where
  "lstrip s = dropWhile isspace s"

definition rstrip :: "string \<Rightarrow> string" where
  "rstrip s = rev (dropWhile isspace (rev s))"

definition strip :: "string \<Rightarrow> string" where
  "strip s = rstrip (lstrip s)"

definition startswith :: "string \<Rightarrow> string \<Rightarrow> bool" where
  "startswith s p = (take (length p) s = p)"

text \<open>\<open>s.split(sep)\<close> for a one-character separator: \<open>"".split(",")\<close> is \<open>[""]\<close>.\<close>

fun split_on :: "char \<Rightarrow> string \<Rightarrow> string list" where
  "split_on sep [] = [[]]"
| "split_on sep (c # cs) =
     (if c = sep then [] # split_on sep cs
      else (case split_on sep cs of
              w # ws \<Rightarrow> (c # w) # ws
            | [] \<Rightarrow> [[c]]))"

subsection \<open>CORS configuration\<close>

definition DEFAULT_ORIGINS :: "string list" where
  "DEFAULT_ORIGINS =
     [''https://chessdev-hub.github.io'',
      ''https://chessdev-hub.github.io/SusScanner1.50'',
      ''http://localhost:5173'', ''http://127.0.0.1:5173'']"

text \<open>\<open>os.getenv(name, default)\<close>: the variable's value, \<open>None\<close> when it is unset.\<close>

definition getenv :: "string option \<Rightarrow> string \<Rightarrow> string" where
  "getenv var dflt = (case var of None \<Rightarrow> dflt | Some v \<Rightarrow> v)"

text \<open>
  \<open>allow_origins\<close> (lines 9 to 15) as a function of the environment variable
  \<open>CORS_ORIGINS\<close>. An empty list is falsy, so \<open>or\<close> takes the default list.
\<close>

definition allow_origins :: "string option \<Rightarrow> string list" where
  "allow_origins CORS_ORIGINS =
     (let origins_env = getenv CORS_ORIGINS '''';
          listed = map strip (filter (\<lambda>origin. strip origin \<noteq> []) (split_on CHR '','' origins_env))
      in if listed = [] then DEFAULT_ORIGINS else listed)"

subsection \<open>Objects returned by the analysis\<close>

text \<open>
  A key of \<open>vars(obj)\<close>. \<open>_to_json\<close> evaluates \<open>not k.startswith("_")\<close> on it: for a
  \<open>str\<close> that is the prefix test; a key that is no \<open>str\<close> is given by the outcome of that
  call read as a truth value (an \<open>int\<close> key raises \<open>AttributeError\<close>).
\<close>

datatype pykey = StrKey string | OtherKey "exn + bool"

fun key_startswith_underscore :: "pykey \<Rightarrow> exn + bool" where
  "key_startswith_underscore (StrKey name) = Inr (startswith name ''_'')"
| "key_startswith_underscore (OtherKey outcome) = outcome"

text \<open>
  An object is a \<open>str\<close> (\<open>PyStr\<close>), or is given by the four things \<open>_to_json\<close> asks of
  it, each an outcome:
  \<^item> \<open>is_dict\<close>: \<open>isinstance(obj, dict)\<close>;
  \<^item> \<open>model_dump\<close>: \<open>hasattr(obj, "model_dump")\<close>, which raises, or is false (\<open>None\<close>),
    or is true, and then the outcome of the call \<open>obj.model_dump()\<close>;
  \<^item> \<open>dunder_dict\<close>: \<open>hasattr(obj, "__dict__")\<close>, which raises, or is false (\<open>None\<close>), or
    is true, and then the outcome of \<open>vars(obj).items()\<close>: the items in order, their keys
    pairwise different as the keys of a dict are;
  \<^item> \<open>str_of\<close>: \<open>str(obj)\<close>.
  Nothing relates the four, so an object may pass several of the tests at once. A \<open>str\<close> is
  no dict, has neither \<open>model_dump\<close> nor \<open>__dict__\<close>, and \<open>str\<close> of it is itself.
\<close>

datatype pyobj =
    PyStr string
  | PyObject "exn + bool" "exn + (exn + pyobj) option"
      "exn + (exn + (pykey \<times> pyobj) list) option" "exn + string"

fun is_dict :: "pyobj \<Rightarrow> exn + bool" where
  "is_dict (PyStr s) = Inr False"
| "is_dict (PyObject d m v t) = d"

fun model_dump :: "pyobj \<Rightarrow> exn + (exn + pyobj) option" where
  "model_dump (PyStr s) = Inr None"
| "model_dump (PyObject d m v t) = m"

fun dunder_dict :: "pyobj \<Rightarrow> exn + (exn + (pykey \<times> pyobj) list) option" where
  "dunder_dict (PyStr s) = Inr None"
| "dunder_dict (PyObject d m v t) = v"

fun str_of :: "pyobj \<Rightarrow> exn + string" where
  "str_of (PyStr s) = Inr s"
| "str_of (PyObject d m v t) = t"

text \<open>
  What \<open>_to_json\<close> returns: an object it was handed (\<open>Returned\<close>: the argument itself, or
  what \<open>model_dump()\<close> gave), or a dict it builds (\<open>NewDict\<close>, by its items in order).
\<close>

datatype json = Returned pyobj | NewDict "(pykey \<times> pyobj) list"

text \<open>
  The dict comprehension of line 70 over the items in order: the first key on which
  \<open>k.startswith("_")\<close> raises ends it with that exception; otherwise the items whose key
  does not start with an underscore are kept.
\<close>

fun public_items :: "(pykey \<times> pyobj) list \<Rightarrow> exn + (pykey \<times> pyobj) list" where
  "public_items [] = Inr []"
| "public_items ((k, v) # rest) =
     (case key_startswith_underscore k of
        Inl e \<Rightarrow> Inl e
      | Inr private \<Rightarrow>
         (case public_items rest of
            Inl e \<Rightarrow> Inl e
          | Inr kept \<Rightarrow> Inr (if private then kept else (k, v) # kept)))"

definition to_json :: "pyobj \<Rightarrow> exn + json" where
  "to_json obj =
     (case is_dict obj of
        Inl e \<Rightarrow> Inl e
      | Inr isdict \<Rightarrow>
         if isdict then Inr (Returned obj)
         else
          (case model_dump obj of
             Inl e \<Rightarrow> Inl e
           | Inr has_model_dump \<Rightarrow>
              (case has_model_dump of
                 Some outcome \<Rightarrow>
                   (case outcome of
                      Inl e \<Rightarrow> Inl e
                    | Inr dumped \<Rightarrow> Inr (Returned dumped))
               | None \<Rightarrow>
                  (case dunder_dict obj of
                     Inl e \<Rightarrow> Inl e
                   | Inr has_dict \<Rightarrow>
                      (case has_dict of
                         Some outcome \<Rightarrow>
                           (case outcome of
                              Inl e \<Rightarrow> Inl e
                            | Inr items \<Rightarrow>
                               (case public_items items of
                                  Inl e \<Rightarrow> Inl e
                                | Inr kept \<Rightarrow> Inr (NewDict kept)))
                       | None \<Rightarrow>
                          (case str_of obj of
                             Inl e \<Rightarrow> Inl e
                           | Inr s \<Rightarrow> Inr (NewDict [(StrKey ''result'', PyStr s)])))))))"


subsection \<open>The analysis module\<close>

text \<open>
  \<open>analyze\<close> is a call with the username: it raises or returns an object. A module
  attribute bound to \<open>analyze_user\<close> or \<open>analyze_player\<close> is given by its truth value and
  by what calling it does (a value that is not callable raises \<open>TypeError\<close>). The class
  is given by what constructing it with \<open>lookback_months\<close> does, an instance by the
  methods it has. \<open>getattr(mod, name, None)\<close> is \<open>None\<close> for an attribute that is absent
  or is \<open>None\<close>.
\<close>

type_synonym analyze = "string \<Rightarrow> exn + pyobj"

record attr =
  attr_truthy :: bool
  attr_call :: analyze

record scanner_instance =
  inst_analyze_user :: "analyze option"
  inst_analyze_player :: "analyze option"

type_synonym scanner_cls = "int \<Rightarrow> exn + scanner_instance"

record pymodule =
  mod_SusScanner :: "scanner_cls option"
  mod_analyze_user :: "attr option"
  mod_analyze_player :: "attr option"

text \<open>\<open>importlib.import_module\<close> at the time of a request: it raises or returns a module.\<close>

type_synonym importer = "string \<Rightarrow> exn + pymodule"

text \<open>\<open>a or b\<close> on two attribute values: \<open>a\<close> when it is truthy, otherwise \<open>b\<close>.\<close>

definition truthy :: "attr option \<Rightarrow> bool" where
  "truthy a = (case a of None \<Rightarrow> False | Some f \<Rightarrow> attr_truthy f)"

definition py_or :: "attr option \<Rightarrow> attr option \<Rightarrow> attr option" where
  "py_or a b = (if truthy a then a else b)"

subsection \<open>The module globals and the calls out of the handler\<close>

text \<open>
  The globals \<open>_ScannerCls\<close>, \<open>_analyze_fn\<close> and \<open>_loaded\<close> (lines 37 to 39), and
  \<open>calls\<close>: the calls the handler has made into code outside this file, in order. Each
  event stands for one call expression of the source:
  \<open>importlib.import_module(n)\<close>, \<open>_analyze_fn(username)\<close>,
  \<open>_ScannerCls(lookback_months=k)\<close> and \<open>scanner.<method>(username)\<close>.
\<close>

datatype event =
    ImportModule string
  | CallFunction string
  | Construct int
  | CallMethod string string

record state =
  ScannerCls :: "scanner_cls option"
  analyze_fn :: "attr option"
  loaded :: bool
  calls :: "event list"

definition initial_state :: state where
  "initial_state = \<lparr>ScannerCls = None, analyze_fn = None, loaded = False, calls = []\<rparr>"

definition log_call :: "event \<Rightarrow> state \<Rightarrow> state" where
  "log_call ev st = st\<lparr>calls := calls st @ [ev]\<rparr>"

fun is_import :: "event \<Rightarrow> bool" where
  "is_import (ImportModule n) = True"
| "is_import ev = False"

subsection \<open>Resolution\<close>

text \<open>
  \<open>_import_first\<close> (lines 41 to 50), its loop with \<open>last_err\<close> as an argument. After the
  loop, \<open>if last_err:\<close> is a truth test: \<open>None\<close> is false, and an exception is what its
  own truth test gives. A false \<open>last_err\<close> falls through to the \<open>ImportError\<close>.
\<close>

definition no_names_error :: exn where
  "no_names_error = Exception (Inr True) ''no module names provided''"

text \<open>Lines 48 to 50: what \<open>_import_first\<close> raises once the loop is over.\<close>

definition after_loop :: "exn option \<Rightarrow> exn" where
  "after_loop last_err =
     (case last_err of
        None \<Rightarrow> no_names_error
      | Some e \<Rightarrow>
         (case exn_truth e of
            Inl raised \<Rightarrow> raised
          | Inr truth \<Rightarrow> if truth then e else no_names_error))"

fun import_loop :: "importer \<Rightarrow> string list \<Rightarrow> exn option \<Rightarrow> state \<Rightarrow> state \<times> (exn + pymodule)" where
  "import_loop imp [] last_err st = (st, Inl (after_loop last_err))"
| "import_loop imp (n # names) last_err st =
     (case imp n of
        Inr m \<Rightarrow> (log_call (ImportModule n) st, Inr m)
      | Inl e \<Rightarrow> import_loop imp names (Some e) (log_call (ImportModule n) st))"

definition import_first :: "importer \<Rightarrow> string list \<Rightarrow> state \<Rightarrow> state \<times> (exn + pymodule)" where
  "import_first imp names st = import_loop imp names None st"

definition load_scanner_once :: "importer \<Rightarrow> state \<Rightarrow> state \<times> (exn + unit)" where
  "load_scanner_once imp st =
     (if loaded st then (st, Inr ())
      else case import_first imp [''scanner'', ''services.scanner'', ''api.scanner''] st of
        (st1, Inl e) \<Rightarrow> (st1, Inl e)
      | (st1, Inr m) \<Rightarrow>
          (st1\<lparr>ScannerCls := mod_SusScanner m,
               analyze_fn := py_or (mod_analyze_user m) (mod_analyze_player m),
               loaded := True\<rparr>, Inr ()))"

subsection \<open>The scan handler\<close>

text \<open>\<open>class ScanRequest(BaseModel)\<close> with its one required field \<open>username: str\<close>.\<close>

record ScanRequest =
  username :: string

text \<open>\<open>req.username or ""\<close>: an empty string is falsy, so \<open>or\<close> gives the other one.\<close>

definition or_empty :: "string \<Rightarrow> string" where
  "or_empty s = (if s = [] then [] else s)"

text \<open>The body of the \<open>try\<close> of the class-style branch (lines 95 to 101).\<close>

definition class_style :: "scanner_cls \<Rightarrow> string \<Rightarrow> state \<Rightarrow> state \<times> (exn + pyobj)" where
  "class_style cls u st =
     (let st1 = log_call (Construct 3) st in
      case cls 3 of
        Inl e \<Rightarrow> (st1, Inl e)
      | Inr scanner \<Rightarrow>
         (case inst_analyze_user scanner of
            Some analyze_user \<Rightarrow> (log_call (CallMethod ''analyze_user'' u) st1, analyze_user u)
          | None \<Rightarrow>
             (case inst_analyze_player scanner of
                Some analyze_player \<Rightarrow>
                  (log_call (CallMethod ''analyze_player'' u) st1, analyze_player u)
              | None \<Rightarrow>
                  (st1, Inl (HTTPException 500 ''SusScanner lacks analyze_user/analyze_player'')))))"

definition scan :: "importer \<Rightarrow> state \<Rightarrow> ScanRequest \<Rightarrow> state \<times> (exn + json)" where
  "scan imp st req =
     (let u = strip (or_empty (username req)) in
      if u = [] then (st, Inl (HTTPException 400 ''username is required''))
      else
        case load_scanner_once imp st of
          (st1, Inl e) \<Rightarrow>
            (st1, Inl (HTTPException 500 (''failed to import scanner module: '' @ str_exn e)))
        | (st1, Inr ok) \<Rightarrow>
           (case analyze_fn st1 of
              Some f \<Rightarrow>
                (case attr_call f u of
                   Inl e \<Rightarrow>
                     (log_call (CallFunction u) st1,
                      Inl (HTTPException 500 (''analyze function failed: '' @ str_exn e)))
                 | Inr metrics \<Rightarrow> (log_call (CallFunction u) st1, to_json metrics))
            | None \<Rightarrow>
               (case ScannerCls st1 of
                  Some cls \<Rightarrow>
                    (case class_style cls u st1 of
                       (st2, Inl e) \<Rightarrow>
                         (st2, Inl (HTTPException 500 (''scanner failed: '' @ str_exn e)))
                     | (st2, Inr metrics) \<Rightarrow> (st2, to_json metrics))
                | None \<Rightarrow>
                    (st1, Inl (HTTPException 500
                       (''scanner.py loaded but no entrypoints found. '' @
                        ''Define class SusScanner (with analyze_user/analyze_player) or export '' @
                        ''analyze_user(name)/analyze_player(name).''))))))"

text \<open>
  The route \<open>POST /scan\<close>. The handler takes \<open>req: ScanRequest\<close>, so FastAPI validates
  the body against the model before it calls \<open>scan\<close>: \<open>username\<close> is required and a
  \<open>str\<close>. A body without the member, or with \<open>null\<close> for it, is answered 422 and
  \<open>scan\<close> does not run.
\<close>

datatype username_member = Absent | JsonNull | JsonString string

fun validate :: "username_member \<Rightarrow> ScanRequest option" where
  "validate (JsonString s) = Some \<lparr>username = s\<rparr>"
| "validate Absent = None"
| "validate JsonNull = None"

datatype response = Unprocessable422 | FromHandler "exn + json"

definition post_scan :: "importer \<Rightarrow> state \<Rightarrow> username_member \<Rightarrow> state \<times> response" where
  "post_scan imp st member =
     (case validate member of
        None \<Rightarrow> (st, Unprocessable422)
      | Some req \<Rightarrow> (case scan imp st req of (st1, outcome) \<Rightarrow> (st1, FromHandler outcome)))"

text \<open>
  The process serves requests one after the other, each against the import system of its
  time; the globals of one request are those the previous one left.
\<close>

fun serve :: "state \<Rightarrow> (importer \<times> ScanRequest) list \<Rightarrow> state" where
  "serve st [] = st"
| "serve st ((imp, req) # rest) = serve (fst (scan imp st req)) rest"

text \<open>The calls a request made: those in \<open>st'\<close> after the ones already in \<open>st\<close>.\<close>

definition new_calls :: "state \<Rightarrow> state \<Rightarrow> event list" where
  "new_calls st st' = drop (length (calls st)) (calls st')"

subsection \<open>Example inputs\<close>

text \<open>
  An import system in which no candidate loads, one in which every import raises an
  exception that is falsy, one in which a single name loads a given module, a dict, a
  module with both functions and the class, a module with the class only, a class whose
  instances have neither method, and a request.
\<close>

definition no_modules :: importer where
  "no_modules n = Inl (Exception (Inr True) (''No module named '' @ n))"

definition falsy_failures :: importer where
  "falsy_failures n = Inl (Exception (Inr False) (''cannot load '' @ n))"

definition only_module :: "string \<Rightarrow> pymodule \<Rightarrow> importer" where
  "only_module name m n = (if n = name then Inr m else no_modules n)"

definition metrics_dict :: pyobj where
  "metrics_dict = PyObject (Inr True) (Inr None) (Inr None) (Inr ''{}'')"

definition returning :: "pyobj \<Rightarrow> analyze" where
  "returning v u = Inr v"

definition example_cls :: scanner_cls where
  "example_cls lookback_months =
     Inr \<lparr>inst_analyze_user = Some (returning metrics_dict),
           inst_analyze_player = Some (returning (PyStr ''player''))\<rparr>"

definition bare_cls :: scanner_cls where
  "bare_cls lookback_months = Inr \<lparr>inst_analyze_user = None, inst_analyze_player = None\<rparr>"

definition example_fn :: attr where
  "example_fn = \<lparr>attr_truthy = True, attr_call = returning metrics_dict\<rparr>"

definition player_fn :: attr where
  "player_fn = \<lparr>attr_truthy = True, attr_call = returning (PyStr ''player'')\<rparr>"

definition example_module :: pymodule where
  "example_module =
     \<lparr>mod_SusScanner = Some example_cls, mod_analyze_user = Some example_fn,
      mod_analyze_player = Some player_fn\<rparr>"

definition class_module :: "scanner_cls \<Rightarrow> pymodule" where
  "class_module cls = \<lparr>mod_SusScanner = Some cls, mod_analyze_user = None, mod_analyze_player = None\<rparr>"

definition example_request :: ScanRequest where
  "example_request = \<lparr>username = '' magnus ''\<rparr>"

section \<open>Lemmas\<close>

subsection \<open>Strings\<close>

lemma strip_empty_iff: "strip s = [] \<longleftrightarrow> (\<forall>c\<in>set s. isspace c)"
proof -
  have "strip s = [] \<longleftrightarrow> (\<forall>c\<in>set (dropWhile isspace s). isspace c)"
    by (simp add: strip_def rstrip_def lstrip_def)
  also have "\<dots> \<longleftrightarrow> dropWhile isspace s = []"
  proof (cases "dropWhile isspace s")
    case Nil
    show ?thesis unfolding Nil by simp
  next
    case (Cons x xs)
    then have "\<not> isspace x"
      by (metis hd_dropWhile list.sel(1) list.distinct(1))
    then show ?thesis unfolding Cons by auto
  qed
  also have "\<dots> \<longleftrightarrow> (\<forall>c\<in>set s. isspace c)"
    by simp
  finally show ?thesis .
qed

lemma strip_decomp:
  "\<exists>pre post. s = pre @ strip s @ post \<and> (\<forall>c\<in>set pre. isspace c) \<and> (\<forall>c\<in>set post. isspace c)"
proof -
  let ?t = "dropWhile isspace s"
  have "s = takeWhile isspace s @ ?t" by simp
  moreover have "?t = rev (dropWhile isspace (rev ?t)) @ rev (takeWhile isspace (rev ?t))"
    by (metis rev_append rev_rev_ident takeWhile_dropWhile_id)
  ultimately have "s = takeWhile isspace s @ strip s @ rev (takeWhile isspace (rev ?t))"
    by (simp add: strip_def rstrip_def lstrip_def)
  moreover have "\<forall>c\<in>set (takeWhile isspace s). isspace c"
    by (auto dest: set_takeWhileD)
  moreover have "\<forall>c\<in>set (rev (takeWhile isspace (rev ?t))). isspace c"
    by (auto dest: set_takeWhileD)
  ultimately show ?thesis by blast
qed

lemma strip_ends:
  assumes "strip s \<noteq> []"
  shows "\<not> isspace (hd (strip s)) \<and> \<not> isspace (last (strip s))"
proof -
  let ?t = "dropWhile isspace s"
  let ?r = "dropWhile isspace (rev ?t)"
  have s: "strip s = rev ?r" by (simp add: strip_def rstrip_def lstrip_def)
  with assms have r: "?r \<noteq> []" by simp
  then have "\<not> isspace (hd ?r)" by (rule hd_dropWhile)
  then have l: "\<not> isspace (last (strip s))" using r by (simp add: s last_rev)
  have t: "?t = rev ?r @ rev (takeWhile isspace (rev ?t))"
    by (metis rev_append rev_rev_ident takeWhile_dropWhile_id)
  have "rev ?r \<noteq> []" using r by simp
  then have "hd ?t = hd (rev ?r)" using t by (metis hd_append2)
  moreover have "?t \<noteq> []" using t r by (metis append_is_Nil_conv rev_is_Nil_conv)
  then have "\<not> isspace (hd ?t)" by (rule hd_dropWhile)
  ultimately have "\<not> isspace (hd (strip s))" by (simp add: s)
  with l show ?thesis by simp
qed

lemma split_on_not_Nil: "split_on sep s \<noteq> []"
  by (induction s) (auto split: list.splits)

lemma split_on_subset: "w \<in> set (split_on sep s) \<Longrightarrow> set w \<subseteq> set s"
proof (induction s arbitrary: w)
  case Nil
  then show ?case by simp
next
  case (Cons c cs)
  show ?case
  proof (cases "c = sep")
    case True
    with Cons show ?thesis by auto
  next
    case False
    obtain v vs where vs: "split_on sep cs = v # vs"
      using split_on_not_Nil [of sep cs] by (cases "split_on sep cs") auto
    with Cons.prems False have "w = c # v \<or> w \<in> set vs" by simp
    then show ?thesis
    proof
      assume "w = c # v"
      moreover have "set v \<subseteq> set cs" using Cons.IH [of v] vs by simp
      ultimately show ?thesis by auto
    next
      assume "w \<in> set vs"
      then have "set w \<subseteq> set cs" using Cons.IH [of w] vs by simp
      then show ?thesis by auto
    qed
  qed
qed

lemma split_on_no_sep: "w \<in> set (split_on sep s) \<Longrightarrow> sep \<notin> set w"
proof (induction s arbitrary: w)
  case Nil
  then show ?case by simp
next
  case (Cons c cs)
  obtain v vs where vs: "split_on sep cs = v # vs"
    using split_on_not_Nil [of sep cs] by (cases "split_on sep cs") auto
  show ?case
  proof (cases "c = sep")
    case True
    with Cons show ?thesis by auto
  next
    case False
    with Cons.prems vs have "w = c # v \<or> w \<in> set vs" by simp
    then show ?thesis using Cons.IH [of v] Cons.IH [of w] vs False by auto
  qed
qed

lemma split_on_covers:
  "c \<in> set s \<Longrightarrow> c \<noteq> sep \<Longrightarrow> \<exists>w\<in>set (split_on sep s). c \<in> set w"
proof (induction s)
  case Nil
  then show ?case by simp
next
  case (Cons x xs)
  obtain v vs where vs: "split_on sep xs = v # vs"
    using split_on_not_Nil [of sep xs] by (cases "split_on sep xs") auto
  show ?case
  proof (cases "c \<in> set xs")
    case True
    with Cons obtain w where w: "w \<in> set (split_on sep xs)" "c \<in> set w" by blast
    show ?thesis
    proof (cases "x = sep")
      case True
      with w show ?thesis by auto
    next
      case False
      from w vs have "w = v \<or> w \<in> set vs" by simp
      then show ?thesis using False vs w(2) by auto
    qed
  next
    case False
    with Cons.prems have "c = x" by simp
    then show ?thesis using Cons.prems(2) vs by auto
  qed
qed

lemma no_entry_iff:
  "filter (\<lambda>origin. strip origin \<noteq> []) (split_on CHR '','' v) = [] \<longleftrightarrow>
     (\<forall>c\<in>set v. isspace c \<or> c = CHR '','')"
proof
  assume a: "filter (\<lambda>origin. strip origin \<noteq> []) (split_on CHR '','' v) = []"
  show "\<forall>c\<in>set v. isspace c \<or> c = CHR '',''"
  proof
    fix c assume c: "c \<in> set v"
    show "isspace c \<or> c = CHR '',''"
    proof (cases "c = CHR '',''")
      case True
      then show ?thesis by simp
    next
      case False
      from split_on_covers [OF c False] obtain w where
        w: "w \<in> set (split_on CHR '','' v)" "c \<in> set w" by blast
      from a w(1) have "strip w = []" by (auto simp: filter_empty_conv)
      then show ?thesis using w(2) by (simp add: strip_empty_iff)
    qed
  qed
next
  assume a: "\<forall>c\<in>set v. isspace c \<or> c = CHR '',''"
  have comma: "\<not> isspace CHR '',''" by (simp add: isspace_def)
  have "strip w = []" if w: "w \<in> set (split_on CHR '','' v)" for w
  proof -
    have "\<forall>c\<in>set w. isspace c"
    proof
      fix c assume c: "c \<in> set w"
      then have "c \<in> set v" using split_on_subset [OF w] by auto
      moreover have "c \<noteq> CHR '',''"
        using split_on_no_sep [OF w] c by auto
      ultimately show "isspace c" using a by auto
    qed
    then show ?thesis by (simp add: strip_empty_iff)
  qed
  then show "filter (\<lambda>origin. strip origin \<noteq> []) (split_on CHR '','' v) = []"
    by (auto simp: filter_empty_conv)
qed

subsection \<open>The call log and the import loop\<close>

lemma log_call_simps [simp]:
  "ScannerCls (log_call ev st) = ScannerCls st"
  "analyze_fn (log_call ev st) = analyze_fn st"
  "loaded (log_call ev st) = loaded st"
  "calls (log_call ev st) = calls st @ [ev]"
  by (simp_all add: log_call_def)

lemma filter_not_import_map [simp]:
  "filter (\<lambda>ev. \<not> is_import ev) (map ImportModule tried) = []"
  by (induction tried) auto

lemma import_loop_all_fail:
  "\<forall>n\<in>set names. isl (imp n) \<Longrightarrow>
   import_loop imp names last_err st =
     (st\<lparr>calls := calls st @ map ImportModule names\<rparr>,
      Inl (after_loop (if names = [] then last_err else Some (projl (imp (last names))))))"
proof (induction names arbitrary: last_err st)
  case Nil
  then show ?case by simp
next
  case (Cons n names)
  then obtain e where e: "imp n = Inl e" by (cases "imp n") auto
  have "import_loop imp (n # names) last_err st
          = import_loop imp names (Some e) (log_call (ImportModule n) st)"
    by (simp add: e)
  also have "\<dots> = (st\<lparr>calls := calls st @ map ImportModule (n # names)\<rparr>,
      Inl (after_loop (if names = [] then Some e else Some (projl (imp (last names))))))"
    using Cons.IH [of "Some e" "log_call (ImportModule n) st"] Cons.prems
    by (simp add: log_call_def)
  finally show ?case
    by (simp add: e)
qed

lemma import_loop_first_success:
  "\<forall>n\<in>set pre. isl (imp n) \<Longrightarrow> imp n = Inr m \<Longrightarrow>
   import_loop imp (pre @ n # post) last_err st =
     (st\<lparr>calls := calls st @ map ImportModule (pre @ [n])\<rparr>, Inr m)"
proof (induction pre arbitrary: last_err st)
  case Nil
  then show ?case by (simp add: log_call_def)
next
  case (Cons p pre)
  then obtain e where e: "imp p = Inl e" by (cases "imp p") auto
  show ?case
    using Cons.IH [of "Some e" "log_call (ImportModule p) st"] Cons.prems
    by (simp add: e log_call_def)
qed

lemma import_loop_state:
  "import_loop imp names last_err st = (st', r) \<Longrightarrow>
     \<exists>tried. st' = st\<lparr>calls := calls st @ map ImportModule tried\<rparr>"
proof (induction names arbitrary: last_err st)
  case Nil
  then have "st' = st" by simp
  then have "st' = st\<lparr>calls := calls st @ map ImportModule []\<rparr>" by simp
  then show ?case by blast
next
  case (Cons n names)
  show ?case
  proof (cases "imp n")
    case (Inr m)
    with Cons.prems have "st' = st\<lparr>calls := calls st @ map ImportModule [n]\<rparr>"
      by (simp add: log_call_def)
    then show ?thesis by blast
  next
    case (Inl e)
    with Cons.prems have "import_loop imp names (Some e) (log_call (ImportModule n) st) = (st', r)"
      by simp
    from Cons.IH [OF this] obtain tried where
      "st' = (log_call (ImportModule n) st)\<lparr>calls := calls (log_call (ImportModule n) st) @ map ImportModule tried\<rparr>"
      by blast
    then have "st' = st\<lparr>calls := calls st @ map ImportModule (n # tried)\<rparr>"
      by (simp add: log_call_def)
    then show ?thesis by blast
  qed
qed

lemma load_scanner_once_loaded:
  "loaded st \<Longrightarrow> load_scanner_once imp st = (st, Inr ())"
  by (simp add: load_scanner_once_def)

lemma load_scanner_once_calls:
  assumes "load_scanner_once imp st = (st1, r)"
  shows "\<exists>tried. calls st1 = calls st @ map ImportModule tried"
proof (cases "loaded st")
  case True
  with assms have "st1 = st" by (simp add: load_scanner_once_def)
  then have "calls st1 = calls st @ map ImportModule []" by simp
  then show ?thesis by blast
next
  case False
  obtain st2 r2 where il: "import_loop imp [''scanner'', ''services.scanner'', ''api.scanner''] None st = (st2, r2)"
    by (cases "import_loop imp [''scanner'', ''services.scanner'', ''api.scanner''] None st") auto
  from import_loop_state [OF il] obtain tried where
    st2: "st2 = st\<lparr>calls := calls st @ map ImportModule tried\<rparr>" by blast
  from assms False il have "calls st1 = calls st2"
    by (cases r2) (auto simp: load_scanner_once_def import_first_def)
  with st2 show ?thesis by auto
qed

lemma class_style_keeps:
  assumes "class_style cls u st = (st2, r)"
  shows "loaded st2 = loaded st \<and> ScannerCls st2 = ScannerCls st \<and> analyze_fn st2 = analyze_fn st \<and>
         filter is_import (calls st2) = filter is_import (calls st)"
  using assms by (auto simp: class_style_def Let_def split: sum.splits option.splits)

lemma scan_loaded_keeps:
  assumes "loaded st"
  shows "loaded (fst (scan imp st req)) \<and> ScannerCls (fst (scan imp st req)) = ScannerCls st \<and>
         analyze_fn (fst (scan imp st req)) = analyze_fn st \<and>
         filter is_import (calls (fst (scan imp st req))) = filter is_import (calls st)"
proof (cases "strip (or_empty (username req)) = []")
  case True
  then show ?thesis using assms by (simp add: scan_def)
next
  case False
  note u = this
  show ?thesis
  proof (cases "analyze_fn st")
    case (Some f)
    then show ?thesis
      using assms u by (simp add: scan_def Let_def load_scanner_once_loaded split: sum.splits)
  next
    case None
    note fn = this
    show ?thesis
    proof (cases "ScannerCls st")
      case None
      then show ?thesis
        using assms u fn by (simp add: scan_def load_scanner_once_loaded)
    next
      case (Some cls)
      obtain st2 r where cs: "class_style cls (strip (or_empty (username req))) st = (st2, r)"
        by (cases "class_style cls (strip (or_empty (username req))) st") auto
      have "fst (scan imp st req) = st2"
        using assms u fn Some cs by (simp add: scan_def load_scanner_once_loaded split: sum.splits)
      then show ?thesis
        using class_style_keeps [OF cs] assms by simp
    qed
  qed
qed

lemma import_order_and_surfaced_failure:
  assumes "\<not> loaded st" and "strip (or_empty (username req)) \<noteq> []"
  shows
   "(\<forall>m. imp ''scanner'' = Inr m \<longrightarrow>
       load_scanner_once imp st =
         (st\<lparr>ScannerCls := mod_SusScanner m,
             analyze_fn := py_or (mod_analyze_user m) (mod_analyze_player m),
             loaded := True,
             calls := calls st @ [ImportModule ''scanner'']\<rparr>, Inr ())) \<and>
    (\<forall>e1 m. imp ''scanner'' = Inl e1 \<and> imp ''services.scanner'' = Inr m \<longrightarrow>
       load_scanner_once imp st =
         (st\<lparr>ScannerCls := mod_SusScanner m,
             analyze_fn := py_or (mod_analyze_user m) (mod_analyze_player m),
             loaded := True,
             calls := calls st @ [ImportModule ''scanner'', ImportModule ''services.scanner'']\<rparr>,
          Inr ())) \<and>
    (\<forall>e1 e2 m. imp ''scanner'' = Inl e1 \<and> imp ''services.scanner'' = Inl e2 \<and>
         imp ''api.scanner'' = Inr m \<longrightarrow>
       load_scanner_once imp st =
         (st\<lparr>ScannerCls := mod_SusScanner m,
             analyze_fn := py_or (mod_analyze_user m) (mod_analyze_player m),
             loaded := True,
             calls := calls st @ [ImportModule ''scanner'', ImportModule ''services.scanner'',
                                  ImportModule ''api.scanner'']\<rparr>,
          Inr ())) \<and>
    (\<forall>e1 e2 e3. imp ''scanner'' = Inl e1 \<and> imp ''services.scanner'' = Inl e2 \<and>
         imp ''api.scanner'' = Inl e3 \<longrightarrow>
       scan imp st req =
         (st\<lparr>calls := calls st @ [ImportModule ''scanner'', ImportModule ''services.scanner'',
                                  ImportModule ''api.scanner'']\<rparr>,
          Inl (HTTPException 500
            (''failed to import scanner module: '' @
             str_exn (case exn_truth e3 of
                        Inl raised \<Rightarrow> raised
                      | Inr truth \<Rightarrow> if truth then e3 else no_names_error)))))"
proof -
  let ?names = "[''scanner'', ''services.scanner'', ''api.scanner'']"
  have c1: "import_first imp ?names st = (st\<lparr>calls := calls st @ [ImportModule ''scanner'']\<rparr>, Inr m)"
    if "imp ''scanner'' = Inr m" for m
    using import_loop_first_success [of "[]" imp "''scanner''" m "[''services.scanner'', ''api.scanner'']" None st] that
    by (simp add: import_first_def)
  have c2: "import_first imp ?names st =
      (st\<lparr>calls := calls st @ [ImportModule ''scanner'', ImportModule ''services.scanner'']\<rparr>, Inr m)"
    if "imp ''scanner'' = Inl e1" "imp ''services.scanner'' = Inr m" for e1 m
    using import_loop_first_success [of "[''scanner'']" imp "''services.scanner''" m "[''api.scanner'']" None st] that
    by (simp add: import_first_def)
  have c3: "import_first imp ?names st =
      (st\<lparr>calls := calls st @ [ImportModule ''scanner'', ImportModule ''services.scanner'',
                                  ImportModule ''api.scanner'']\<rparr>, Inr m)"
    if "imp ''scanner'' = Inl e1" "imp ''services.scanner'' = Inl e2" "imp ''api.scanner'' = Inr m" for e1 e2 m
    using import_loop_first_success [of "[''scanner'', ''services.scanner'']" imp "''api.scanner''" m "[]" None st] that
    by (simp add: import_first_def)
  have c4: "import_first imp ?names st =
      (st\<lparr>calls := calls st @ [ImportModule ''scanner'', ImportModule ''services.scanner'',
                                  ImportModule ''api.scanner'']\<rparr>, Inl (after_loop (Some e3)))"
    if "imp ''scanner'' = Inl e1" "imp ''services.scanner'' = Inl e2" "imp ''api.scanner'' = Inl e3" for e1 e2 e3
    using import_loop_all_fail [of ?names imp None st] that
    by (simp add: import_first_def)
  show ?thesis
    using assms c1 c2 c3 c4
    by (simp add: load_scanner_once_def scan_def after_loop_def)
qed

subsection \<open>The dict comprehension\<close>




subsection \<open>The example inputs\<close>

lemma example_username: "strip (or_empty (username example_request)) = ''magnus''"
  by (simp add: example_request_def or_empty_def strip_def lstrip_def rstrip_def isspace_def)

lemma load_example:
  "load_scanner_once (only_module ''scanner'' m) initial_state =
     (\<lparr>ScannerCls = mod_SusScanner m, analyze_fn = py_or (mod_analyze_user m) (mod_analyze_player m),
       loaded = True, calls = [ImportModule ''scanner'']\<rparr>, Inr ())"
  by (simp add: load_scanner_once_def import_first_def only_module_def initial_state_def log_call_def)

lemma scan_no_modules:
  "scan no_modules initial_state example_request =
     (\<lparr>ScannerCls = None, analyze_fn = None, loaded = False,
       calls = [ImportModule ''scanner'', ImportModule ''services.scanner'', ImportModule ''api.scanner'']\<rparr>,
      Inl (HTTPException 500 ''failed to import scanner module: No module named api.scanner''))"
  by (simp add: scan_def example_username load_scanner_once_def import_first_def no_modules_def
      after_loop_def initial_state_def log_call_def)

section \<open>The claims\<close>

subsection \<open>Resolution state over the life of the process\<close>

text \<open>
  C1 (as amended). Resolution is attempted by a scan request only while no earlier attempt
  has succeeded. Once \<open>_loaded\<close> is set, however many requests follow and whatever the
  import system does by then, the process stays loaded, \<open>_ScannerCls\<close> and
  \<open>_analyze_fn\<close> keep their values and no further \<open>import_module\<close> call is made. A
  failed resolution is not recorded: when all three candidates fail, the request leaves
  the globals as they were (only the three import calls were made), so \<open>_loaded\<close> is
  still false and the next request imports again.
\<close>

theorem resolution_fixed_once_loaded:
  "(loaded st \<longrightarrow>
      loaded (serve st reqs) \<and> ScannerCls (serve st reqs) = ScannerCls st \<and>
      analyze_fn (serve st reqs) = analyze_fn st \<and>
      filter is_import (calls (serve st reqs)) = filter is_import (calls st)) \<and>
   (\<not> loaded st \<and> strip (or_empty (username req)) \<noteq> [] \<and>
    isl (imp ''scanner'') \<and> isl (imp ''services.scanner'') \<and> isl (imp ''api.scanner'') \<longrightarrow>
      fst (scan imp st req) =
        st\<lparr>calls := calls st @ [ImportModule ''scanner'', ImportModule ''services.scanner'',
                                 ImportModule ''api.scanner'']\<rparr>)"
proof -
  have inv: "loaded st \<Longrightarrow>
      loaded (serve st reqs) \<and> ScannerCls (serve st reqs) = ScannerCls st \<and>
      analyze_fn (serve st reqs) = analyze_fn st \<and>
      filter is_import (calls (serve st reqs)) = filter is_import (calls st)"
  proof (induction reqs arbitrary: st)
    case Nil
    then show ?case by simp
  next
    case (Cons a reqs)
    obtain imp' req' where a: "a = (imp', req')" by (cases a)
    from scan_loaded_keeps [OF Cons.prems, of imp' req'] Cons.IH [of "fst (scan imp' st req')"]
    show ?case by (simp add: a)
  qed
  have retry: "fst (scan imp st req) =
        st\<lparr>calls := calls st @ [ImportModule ''scanner'', ImportModule ''services.scanner'',
                                 ImportModule ''api.scanner'']\<rparr>"
    if "\<not> loaded st" "strip (or_empty (username req)) \<noteq> []"
      "isl (imp ''scanner'')" "isl (imp ''services.scanner'')" "isl (imp ''api.scanner'')"
  proof -
    have "\<forall>n\<in>set [''scanner'', ''services.scanner'', ''api.scanner'']. isl (imp n)"
      using that by simp
    from import_loop_all_fail [OF this, of None st]
    have "import_first imp [''scanner'', ''services.scanner'', ''api.scanner''] st =
        (st\<lparr>calls := calls st @ [ImportModule ''scanner'', ImportModule ''services.scanner'',
                                 ImportModule ''api.scanner'']\<rparr>,
         Inl (after_loop (Some (projl (imp ''api.scanner'')))))"
      by (simp add: import_first_def)
    then show ?thesis
      using that(1,2) by (simp add: scan_def load_scanner_once_def)
  qed
  show ?thesis using inv retry by blast
qed

theorem resolution_fixed_once_loaded_witness:
  "loaded (serve (fst (scan (only_module ''scanner'' example_module) initial_state example_request))
             [(no_modules, example_request), (only_module ''api.scanner'' (class_module bare_cls), example_request)]) \<and>
   analyze_fn (serve (fst (scan (only_module ''scanner'' example_module) initial_state example_request))
             [(no_modules, example_request), (only_module ''api.scanner'' (class_module bare_cls), example_request)])
     = Some example_fn \<and>
   filter is_import (calls (serve (fst (scan (only_module ''scanner'' example_module) initial_state example_request))
             [(no_modules, example_request), (only_module ''api.scanner'' (class_module bare_cls), example_request)]))
     = [ImportModule ''scanner''] \<and>
   fst (scan no_modules initial_state example_request) =
     initial_state\<lparr>calls := calls initial_state @
        [ImportModule ''scanner'', ImportModule ''services.scanner'', ImportModule ''api.scanner'']\<rparr>"
proof -
  let ?st = "fst (scan (only_module ''scanner'' example_module) initial_state example_request)"
  let ?reqs = "[(no_modules, example_request), (only_module ''api.scanner'' (class_module bare_cls), example_request)]"
  have st: "?st = \<lparr>ScannerCls = Some example_cls, analyze_fn = Some example_fn, loaded = True,
       calls = [ImportModule ''scanner'', CallFunction ''magnus'']\<rparr>"
    by (simp add: scan_def Let_def example_username load_example example_module_def py_or_def
        truthy_def example_fn_def returning_def log_call_def)
  have l: "loaded ?st" by (simp add: st)
  have n: "\<not> loaded initial_state \<and> strip (or_empty (username example_request)) \<noteq> [] \<and>
    isl (no_modules ''scanner'') \<and> isl (no_modules ''services.scanner'') \<and> isl (no_modules ''api.scanner'')"
    by (simp add: initial_state_def example_username no_modules_def)
  from resolution_fixed_once_loaded [of ?st ?reqs example_request no_modules] l
  have a: "loaded (serve ?st ?reqs) \<and> ScannerCls (serve ?st ?reqs) = ScannerCls ?st \<and>
      analyze_fn (serve ?st ?reqs) = analyze_fn ?st \<and>
      filter is_import (calls (serve ?st ?reqs)) = filter is_import (calls ?st)"
    by blast
  from resolution_fixed_once_loaded [of initial_state "[]" example_request no_modules] n
  have b: "fst (scan no_modules initial_state example_request) =
     initial_state\<lparr>calls := calls initial_state @
        [ImportModule ''scanner'', ImportModule ''services.scanner'', ImportModule ''api.scanner'']\<rparr>"
    by blast
  have "analyze_fn ?st = Some example_fn" "filter is_import (calls ?st) = [ImportModule ''scanner'']"
    by (simp_all add: st)
  with a b show ?thesis by simp
qed

text \<open>
  C1 as stated fails. With no candidate importable, the first request answers 500; the
  second request calls \<open>import_module\<close> on the three candidates again, and answers with
  the analysis result when the module has become importable in between.
\<close>

theorem failed_resolution_is_retried:
  "snd (scan no_modules initial_state example_request) =
     Inl (HTTPException 500 ''failed to import scanner module: No module named api.scanner'') \<and>
   calls (fst (scan no_modules (fst (scan no_modules initial_state example_request)) example_request)) =
     [ImportModule ''scanner'', ImportModule ''services.scanner'', ImportModule ''api.scanner'',
      ImportModule ''scanner'', ImportModule ''services.scanner'', ImportModule ''api.scanner''] \<and>
   snd (scan (only_module ''scanner'' example_module)
          (fst (scan no_modules initial_state example_request)) example_request) =
     Inr (Returned metrics_dict)"
  by (simp add: scan_no_modules)
     (simp add: scan_def example_username load_scanner_once_def import_first_def no_modules_def
        after_loop_def only_module_def log_call_def example_module_def py_or_def truthy_def
        example_fn_def returning_def to_json_def metrics_dict_def)

subsection \<open>Validation\<close>

text \<open>
  C2 (as amended). A username is a string made of whitespace only (the empty string
  included) exactly when it strips to the empty string. For such a username the route
  answers with \<open>HTTPException(400, "username is required")\<close> raised by \<open>scan\<close>, and the
  globals are unchanged, the call log included: no import was attempted. A body whose
  \<open>username\<close> is missing or \<open>null\<close> does not reach \<open>scan\<close>: validation against
  \<open>ScanRequest\<close> answers it with 422, the globals unchanged as well.
\<close>

theorem empty_username_rejected:
  "(strip s = [] \<longleftrightarrow> (\<forall>c\<in>set s. isspace c)) \<and>
   (strip s = [] \<longrightarrow>
      post_scan imp st (JsonString s) =
        (st, FromHandler (Inl (HTTPException 400 ''username is required'')))) \<and>
   (strip (or_empty (username req)) = [] \<longrightarrow>
      scan imp st req = (st, Inl (HTTPException 400 ''username is required''))) \<and>
   (member = Absent \<or> member = JsonNull \<longrightarrow> post_scan imp st member = (st, Unprocessable422))"
proof -
  have a: "strip s = [] \<longleftrightarrow> (\<forall>c\<in>set s. isspace c)"
    by (rule strip_empty_iff)
  have b: "scan imp st req = (st, Inl (HTTPException 400 ''username is required''))"
    if "strip (or_empty (username req)) = []" for req
    using that by (simp add: scan_def)
  have c: "post_scan imp st (JsonString s) =
        (st, FromHandler (Inl (HTTPException 400 ''username is required'')))"
    if "strip s = []"
  proof -
    have "strip (or_empty (username \<lparr>username = s\<rparr>)) = []"
      using that by (simp add: or_empty_def strip_def rstrip_def lstrip_def)
    from b [OF this] show ?thesis by (simp add: post_scan_def)
  qed
  have d: "post_scan imp st member = (st, Unprocessable422)"
    if "member = Absent \<or> member = JsonNull"
    using that by (auto simp: post_scan_def)
  from a b c d show ?thesis by blast
qed

theorem empty_username_rejected_witness:
  "post_scan no_modules initial_state (JsonString [CHR '' '', CHR 0x09, CHR 0x0A, CHR '' '']) =
     (initial_state, FromHandler (Inl (HTTPException 400 ''username is required''))) \<and>
   post_scan no_modules initial_state (JsonString '''') =
     (initial_state, FromHandler (Inl (HTTPException 400 ''username is required''))) \<and>
   scan no_modules initial_state \<lparr>username = ''   ''\<rparr> =
     (initial_state, Inl (HTTPException 400 ''username is required'')) \<and>
   post_scan no_modules initial_state JsonNull = (initial_state, Unprocessable422)"
proof -
  have a: "strip [CHR '' '', CHR 0x09, CHR 0x0A, CHR '' ''] = []"
    by (simp add: strip_def lstrip_def rstrip_def isspace_def)
  have b: "strip '''' = []"
    by (simp add: strip_def lstrip_def rstrip_def)
  have c: "strip (or_empty (username \<lparr>username = ''   ''\<rparr>)) = []"
    by (simp add: or_empty_def strip_def lstrip_def rstrip_def isspace_def)
  show ?thesis
    using
      empty_username_rejected [of "[CHR '' '', CHR 0x09, CHR 0x0A, CHR '' '']" no_modules initial_state]
      empty_username_rejected [of "''''" no_modules initial_state]
      empty_username_rejected [of _ no_modules initial_state "\<lparr>username = ''   ''\<rparr>"]
      empty_username_rejected [of _ no_modules initial_state _ JsonNull]
      a b c
    by simp
qed

text \<open>
  C2 as stated fails for a missing username: the answer is the 422 of the validation, not
  the 400 of \<open>scan\<close>.
\<close>

theorem missing_username_is_422:
  "post_scan no_modules initial_state Absent = (initial_state, Unprocessable422) \<and>
   post_scan no_modules initial_state Absent \<noteq>
     (initial_state, FromHandler (Inl (HTTPException 400 ''username is required'')))"
  by (simp add: post_scan_def)

subsection \<open>Invocation\<close>

text \<open>
  C3. For a request whose stripped username \<open>u\<close> is not empty, when resolution leaves both
  \<open>_analyze_fn\<close> and \<open>_ScannerCls\<close> set, \<open>scan\<close> calls \<open>_analyze_fn(u)\<close> and answers
  from its outcome; apart from imports, that call is the only one the request makes, so the
  class is neither constructed nor called.
\<close>

theorem scan_prefers_function_style:
  assumes "strip (or_empty (username req)) = u" and "u \<noteq> []"
    and "load_scanner_once imp st = (st1, Inr ())"
    and "analyze_fn st1 = Some f" and "ScannerCls st1 = Some cls"
  shows "scan imp st req =
           (log_call (CallFunction u) st1,
            case attr_call f u of
              Inl e \<Rightarrow> Inl (HTTPException 500 (''analyze function failed: '' @ str_exn e))
            | Inr metrics \<Rightarrow> to_json metrics) \<and>
         filter (\<lambda>ev. \<not> is_import ev) (new_calls st (fst (scan imp st req))) = [CallFunction u]"
proof -
  have s: "scan imp st req =
           (log_call (CallFunction u) st1,
            case attr_call f u of
              Inl e \<Rightarrow> Inl (HTTPException 500 (''analyze function failed: '' @ str_exn e))
            | Inr metrics \<Rightarrow> to_json metrics)"
    using assms by (simp add: scan_def split: sum.splits)
  from load_scanner_once_calls [OF assms(3)] obtain tried where
    "calls st1 = calls st @ map ImportModule tried" by blast
  then have "new_calls st (log_call (CallFunction u) st1) = map ImportModule tried @ [CallFunction u]"
    by (simp add: new_calls_def)
  then show ?thesis using s by simp
qed

theorem scan_prefers_function_style_witness:
  "scan (only_module ''scanner'' example_module) initial_state example_request =
     (\<lparr>ScannerCls = Some example_cls, analyze_fn = Some example_fn, loaded = True,
       calls = [ImportModule ''scanner'', CallFunction ''magnus'']\<rparr>,
      Inr (Returned metrics_dict))"
proof -
  let ?st1 = "\<lparr>ScannerCls = Some example_cls, analyze_fn = Some example_fn, loaded = True,
       calls = [ImportModule ''scanner'']\<rparr>"
  have ne: "''magnus'' \<noteq> []" by simp
  have ld: "load_scanner_once (only_module ''scanner'' example_module) initial_state = (?st1, Inr ())"
    by (simp add: load_example example_module_def py_or_def truthy_def example_fn_def)
  have fn: "analyze_fn ?st1 = Some example_fn" by simp
  have cl: "ScannerCls ?st1 = Some example_cls" by simp
  from scan_prefers_function_style [OF example_username ne ld fn cl]
  show ?thesis
    by (simp add: log_call_def example_fn_def returning_def to_json_def metrics_dict_def)
qed

subsection \<open>Normalization\<close>






subsection \<open>Class-style invocation\<close>

text \<open>
  C6. When resolution leaves only \<open>_ScannerCls\<close> set, the first call of the request after
  the imports is the construction with \<open>lookback_months=3\<close>; and when the instance has
  both \<open>analyze_user\<close> and \<open>analyze_player\<close>, the only other call is
  \<open>analyze_user(u)\<close>, whose outcome is the answer: \<open>analyze_player\<close> is not called.
\<close>

theorem scan_class_style_analyze_user_first:
  assumes "strip (or_empty (username req)) = u" and "u \<noteq> []"
    and "load_scanner_once imp st = (st1, Inr ())"
    and "analyze_fn st1 = None" and "ScannerCls st1 = Some cls"
  shows "(\<exists>later. filter (\<lambda>ev. \<not> is_import ev) (new_calls st (fst (scan imp st req))) = Construct 3 # later) \<and>
         (\<forall>scanner au ap. cls 3 = Inr scanner \<and> inst_analyze_user scanner = Some au \<and>
              inst_analyze_player scanner = Some ap \<longrightarrow>
            scan imp st req =
              (log_call (CallMethod ''analyze_user'' u) (log_call (Construct 3) st1),
               case au u of
                 Inl e \<Rightarrow> Inl (HTTPException 500 (''scanner failed: '' @ str_exn e))
               | Inr metrics \<Rightarrow> to_json metrics) \<and>
            filter (\<lambda>ev. \<not> is_import ev) (new_calls st (fst (scan imp st req))) =
              [Construct 3, CallMethod ''analyze_user'' u])"
proof -
  from load_scanner_once_calls [OF assms(3)] obtain tried where
    tried: "calls st1 = calls st @ map ImportModule tried" by blast
  obtain st2 r where cs: "class_style cls u st1 = (st2, r)"
    by (cases "class_style cls u st1") auto
  have sc: "fst (scan imp st req) = st2"
    using assms cs by (simp add: scan_def split: sum.splits)
  have "\<exists>later. calls st2 = calls st1 @ Construct 3 # later"
    using cs by (auto simp: class_style_def Let_def split: sum.splits option.splits)
  then obtain later where "calls st2 = calls st1 @ Construct 3 # later" by blast
  then have "filter (\<lambda>ev. \<not> is_import ev) (new_calls st st2)
               = Construct 3 # filter (\<lambda>ev. \<not> is_import ev) later"
    using tried by (simp add: new_calls_def)
  then have first: "\<exists>later. filter (\<lambda>ev. \<not> is_import ev) (new_calls st (fst (scan imp st req))) = Construct 3 # later"
    using sc by simp
  have both: "scan imp st req =
              (log_call (CallMethod ''analyze_user'' u) (log_call (Construct 3) st1),
               case au u of
                 Inl e \<Rightarrow> Inl (HTTPException 500 (''scanner failed: '' @ str_exn e))
               | Inr metrics \<Rightarrow> to_json metrics) \<and>
            filter (\<lambda>ev. \<not> is_import ev) (new_calls st (fst (scan imp st req))) =
              [Construct 3, CallMethod ''analyze_user'' u]"
    if "cls 3 = Inr scanner" "inst_analyze_user scanner = Some au"
      "inst_analyze_player scanner = Some ap" for scanner au ap
    using that assms tried
    by (simp add: scan_def class_style_def Let_def new_calls_def split: sum.splits)
  show ?thesis using first both by blast
qed

theorem scan_class_style_analyze_user_first_witness:
  "scan (only_module ''scanner'' (class_module example_cls)) initial_state example_request =
     (\<lparr>ScannerCls = Some example_cls, analyze_fn = None, loaded = True,
       calls = [ImportModule ''scanner'', Construct 3, CallMethod ''analyze_user'' ''magnus'']\<rparr>,
      Inr (Returned metrics_dict))"
proof -
  let ?st1 = "\<lparr>ScannerCls = Some example_cls, analyze_fn = None, loaded = True,
       calls = [ImportModule ''scanner'']\<rparr>"
  have ne: "''magnus'' \<noteq> []" by simp
  have ld: "load_scanner_once (only_module ''scanner'' (class_module example_cls)) initial_state = (?st1, Inr ())"
    by (simp add: load_example class_module_def py_or_def truthy_def)
  have fn: "analyze_fn ?st1 = None" by simp
  have cl: "ScannerCls ?st1 = Some example_cls" by simp
  have inst: "example_cls 3 = Inr \<lparr>inst_analyze_user = Some (returning metrics_dict),
           inst_analyze_player = Some (returning (PyStr ''player''))\<rparr> \<and>
        inst_analyze_user \<lparr>inst_analyze_user = Some (returning metrics_dict),
           inst_analyze_player = Some (returning (PyStr ''player''))\<rparr> = Some (returning metrics_dict) \<and>
        inst_analyze_player \<lparr>inst_analyze_user = Some (returning metrics_dict),
           inst_analyze_player = Some (returning (PyStr ''player''))\<rparr> = Some (returning (PyStr ''player''))"
    by (simp add: example_cls_def)
  from scan_class_style_analyze_user_first [OF example_username ne ld fn cl] inst
  have "scan (only_module ''scanner'' (class_module example_cls)) initial_state example_request =
              (log_call (CallMethod ''analyze_user'' ''magnus'') (log_call (Construct 3) ?st1),
               case returning metrics_dict ''magnus'' of
                 Inl e \<Rightarrow> Inl (HTTPException 500 (''scanner failed: '' @ str_exn e))
               | Inr metrics \<Rightarrow> to_json metrics)"
    by blast
  then show ?thesis
    by (simp add: log_call_def returning_def to_json_def metrics_dict_def)
qed

subsection \<open>Candidate modules\<close>

text \<open>
  C7 holds of the code except where line 48 tests \<open>if last_err:\<close> for "was there a
  failure" (\<open>import_order_and_surfaced_failure\<close> gives the order of the imports and, for a last
  failure that is truthy, its text in the 500). When every candidate fails and the
  exception of \<open>api.scanner\<close> is falsy, the test is false and
  \<open>ImportError("no module names provided")\<close> is raised in its place: the 500 carries that
  text and not the text of the last failure.
\<close>

theorem falsy_import_failure_is_replaced:
  "scan falsy_failures initial_state example_request =
     (\<lparr>ScannerCls = None, analyze_fn = None, loaded = False,
       calls = [ImportModule ''scanner'', ImportModule ''services.scanner'', ImportModule ''api.scanner'']\<rparr>,
      Inl (HTTPException 500 ''failed to import scanner module: no module names provided''))"
  by (simp add: scan_def example_username load_scanner_once_def import_first_def falsy_failures_def
      after_loop_def no_names_error_def initial_state_def log_call_def)

subsection \<open>Allowed origins\<close>

text \<open>
  C8. \<open>allow_origins\<close> is the default list when \<open>CORS_ORIGINS\<close> is unset or consists of
  whitespace and commas only (the empty value included); otherwise it is the list of the
  comma-separated entries, stripped, without those that strip to the empty string. To strip
  an entry is to take whitespace off both ends: the entry is the stripped entry between two
  runs of whitespace, and a stripped entry that is not empty begins and ends with a
  character that is no whitespace.
\<close>

theorem allow_origins_from_env:
  "allow_origins CORS_ORIGINS =
     (case CORS_ORIGINS of
        None \<Rightarrow> DEFAULT_ORIGINS
      | Some v \<Rightarrow>
          if (\<forall>c\<in>set v. isspace c \<or> c = CHR '','') then DEFAULT_ORIGINS
          else map strip (filter (\<lambda>entry. strip entry \<noteq> []) (split_on CHR '','' v))) \<and>
   (\<exists>pre post. entry = pre @ strip entry @ post \<and>
      (\<forall>c\<in>set pre. isspace c) \<and> (\<forall>c\<in>set post. isspace c)) \<and>
   (strip entry = [] \<or> (\<not> isspace (hd (strip entry)) \<and> \<not> isspace (last (strip entry))))"
proof -
  have a: "allow_origins CORS_ORIGINS =
     (case CORS_ORIGINS of
        None \<Rightarrow> DEFAULT_ORIGINS
      | Some v \<Rightarrow>
          if (\<forall>c\<in>set v. isspace c \<or> c = CHR '','') then DEFAULT_ORIGINS
          else map strip (filter (\<lambda>entry. strip entry \<noteq> []) (split_on CHR '','' v)))"
  proof (cases CORS_ORIGINS)
    case None
    then show ?thesis by (simp add: allow_origins_def getenv_def strip_empty_iff)
  next
    case (Some v)
    then show ?thesis
      using no_entry_iff [of v] by (simp add: allow_origins_def getenv_def Let_def)
  qed
  show ?thesis
    using a strip_decomp [of entry] strip_ends [of entry] by blast
qed

theorem allow_origins_from_env_witness:
  "allow_origins None = DEFAULT_ORIGINS \<and>
   allow_origins (Some '''') = DEFAULT_ORIGINS \<and>
   allow_origins (Some '' , ,'') = DEFAULT_ORIGINS \<and>
   allow_origins (Some (''  https://a.example , ,'' @ [CHR 0x09] @ ''http://b.example'' @ [CHR 0x0A]
                        @ '', x y  '')) =
     [''https://a.example'', ''http://b.example'', ''x y''] \<and>
   strip ([CHR 0x09] @ '' a b '' @ [CHR 0x0A]) = ''a b''"
proof -
  let ?v = "''  https://a.example , ,'' @ [CHR 0x09] @ ''http://b.example'' @ [CHR 0x0A] @ '', x y  ''"
  let ?e = "[CHR 0x09] @ '' a b '' @ [CHR 0x0A]"
  have sp: "isspace CHR '' ''" "isspace (CHR 0x09)" "isspace (CHR 0x0A)" "\<not> isspace CHR ''a''"
    "\<not> isspace CHR ''b''"
    by (simp_all add: isspace_def)
  have d1: "allow_origins None = DEFAULT_ORIGINS"
    using allow_origins_from_env [of None "[]"] by simp
  have d2: "allow_origins (Some '''') = DEFAULT_ORIGINS"
    using allow_origins_from_env [of "Some ''''" "[]"] by simp
  have d3: "allow_origins (Some '' , ,'') = DEFAULT_ORIGINS"
    using allow_origins_from_env [of "Some '' , ,''" "[]"] by (simp add: isspace_def)
  have d4: "allow_origins (Some ?v) = [''https://a.example'', ''http://b.example'', ''x y'']"
    using allow_origins_from_env [of "Some ?v" "[]"]
    by (simp add: strip_def lstrip_def rstrip_def isspace_def)
  have d5: "strip ?e = ''a b''"
    by (simp add: strip_def lstrip_def rstrip_def isspace_def)
  from d1 d2 d3 d4 d5 show ?thesis by simp
qed

subsection \<open>Function names\<close>

text \<open>
  C9. When the module that loaded has a truthy \<open>analyze_user\<close>, that is what
  \<open>_analyze_fn\<close> records, whether or not \<open>analyze_player\<close> exists; \<open>analyze_player\<close> is
  recorded when \<open>analyze_user\<close> is absent or falsy, and only then can \<open>_analyze_fn\<close>
  differ from \<open>analyze_user\<close>.
\<close>

theorem function_style_prefers_analyze_user:
  assumes "\<not> loaded st"
    and "import_first imp [''scanner'', ''services.scanner'', ''api.scanner''] st = (st1, Inr m)"
  shows "(\<forall>au. mod_analyze_user m = Some au \<and> attr_truthy au \<longrightarrow>
            analyze_fn (fst (load_scanner_once imp st)) = Some au) \<and>
         (\<not> truthy (mod_analyze_user m) \<longrightarrow>
            analyze_fn (fst (load_scanner_once imp st)) = mod_analyze_player m) \<and>
         (analyze_fn (fst (load_scanner_once imp st)) \<noteq> mod_analyze_user m \<longrightarrow>
            \<not> truthy (mod_analyze_user m) \<and>
            analyze_fn (fst (load_scanner_once imp st)) = mod_analyze_player m)"
  using assms by (auto simp: load_scanner_once_def py_or_def truthy_def)

theorem function_style_prefers_analyze_user_witness:
  "analyze_fn (fst (load_scanner_once (only_module ''scanner'' example_module) initial_state)) = Some example_fn \<and>
   analyze_fn (fst (load_scanner_once (only_module ''scanner''
       \<lparr>mod_SusScanner = None, mod_analyze_user = None, mod_analyze_player = Some player_fn\<rparr>) initial_state))
     = Some player_fn"
proof -
  have n: "\<not> loaded initial_state" by (simp add: initial_state_def)
  have i: "import_first (only_module ''scanner'' m) [''scanner'', ''services.scanner'', ''api.scanner''] initial_state
     = (initial_state\<lparr>calls := [ImportModule ''scanner'']\<rparr>, Inr m)" for m
    by (simp add: import_first_def only_module_def log_call_def initial_state_def)
  show ?thesis
    using function_style_prefers_analyze_user [OF n i, of example_module]
      function_style_prefers_analyze_user [OF n i,
        of "\<lparr>mod_SusScanner = None, mod_analyze_user = None, mod_analyze_player = Some player_fn\<rparr>"]
    by (simp add: example_module_def example_fn_def truthy_def)
qed

subsection \<open>Missing methods\<close>

text \<open>
  C10. When resolution leaves only \<open>_ScannerCls\<close> set and the constructed instance has
  neither method, the \<open>HTTPException\<close> raised inside the \<open>try\<close> is caught by
  \<open>except Exception\<close>: the response is a 500 whose detail is \<open>"scanner failed: "\<close>
  followed by the text of that exception, which holds
  \<open>"SusScanner lacks analyze_user/analyze_player"\<close>.
\<close>

theorem missing_methods_wrapped_as_scanner_failed:
  assumes "strip (or_empty (username req)) = u" and "u \<noteq> []"
    and "load_scanner_once imp st = (st1, Inr ())"
    and "analyze_fn st1 = None" and "ScannerCls st1 = Some cls"
    and "cls 3 = Inr scanner"
    and "inst_analyze_user scanner = None" and "inst_analyze_player scanner = None"
  shows "scan imp st req =
           (log_call (Construct 3) st1,
            Inl (HTTPException 500
              (''scanner failed: '' @
               str_exn (HTTPException 500 ''SusScanner lacks analyze_user/analyze_player''))))"
  using assms by (simp add: scan_def class_style_def Let_def)

theorem missing_methods_wrapped_as_scanner_failed_witness:
  "scan (only_module ''scanner'' (class_module bare_cls)) initial_state example_request =
     (\<lparr>ScannerCls = Some bare_cls, analyze_fn = None, loaded = True,
       calls = [ImportModule ''scanner'', Construct 3]\<rparr>,
      Inl (HTTPException 500 ''scanner failed: 500: SusScanner lacks analyze_user/analyze_player''))"
proof -
  let ?st1 = "\<lparr>ScannerCls = Some bare_cls, analyze_fn = None, loaded = True,
       calls = [ImportModule ''scanner'']\<rparr>"
  have ne: "''magnus'' \<noteq> []" by simp
  have ld: "load_scanner_once (only_module ''scanner'' (class_module bare_cls)) initial_state = (?st1, Inr ())"
    by (simp add: load_example class_module_def py_or_def truthy_def)
  have fn: "analyze_fn ?st1 = None" by simp
  have cl: "ScannerCls ?st1 = Some bare_cls" by simp
  have c: "bare_cls 3 = Inr \<lparr>inst_analyze_user = None, inst_analyze_player = None\<rparr>"
    by (simp add: bare_cls_def)
  from missing_methods_wrapped_as_scanner_failed [OF example_username ne ld fn cl c]
  show ?thesis by (simp add: log_call_def str_nat.simps digit_char_def)
qed

end
